theory Spec2Isabelle
  imports Complex_Main
begin

section \<open>The crop rectangle of StreamlitCropper.tsx\<close>

subsection \<open>JavaScript numbers\<close>

text \<open>
  A JavaScript number is modelled as \<open>real option\<close>: \<open>Some x\<close> is the finite number
  \<open>x\<close>, and \<open>None\<close> is a value that is no number: \<open>undefined\<close> for an unset field, \<open>NaN\<close>
  for the result of arithmetic on it.

  The results of \<open>+\<close>, \<open>-\<close>, \<open>*\<close> and \<open>/\<close> are rounded the way IEEE 754 doubles round them:
  \<open>fl64\<close> takes the exact result to the nearest number with a significand of 53 bits, a
  tie going to the even significand. The exponent is not bounded, so overflow to an infinity and underflow to
  a subnormal are outside the model. Comparisons, \<open>Math.max\<close> and \<open>Math.min\<close> are exact.

  JavaScript's division does not throw: a zero divisor gives an infinity or \<open>NaN\<close>. The
  model has no infinities, so a division by zero is made an explicit failure of the
  computation that performs it.
\<close>

definition rne :: "real \<Rightarrow> int" where
  \<comment> \<open>The nearest integer, a tie going to the even one.\<close>
  "rne x = (let f = \<lfloor>x\<rfloor>; d = x - of_int f
            in if d < 1 / 2 then f else if 1 / 2 < d then f + 1
               else if even f then f else f + 1)"

definition fl64_pos :: "real \<Rightarrow> real" where
  \<comment> \<open>For \<open>2 ^ e \<le> y < 2 ^ (e + 1)\<close>: the nearest multiple of \<open>2 ^ (e - 52)\<close>.\<close>
  "fl64_pos y = (let e = \<lfloor>log 2 y\<rfloor>
                 in of_int (rne (y * 2 powi (52 - e))) * 2 powi (e - 52))"

definition fl64 :: "real \<Rightarrow> real" where
  "fl64 x = (if x = 0 then 0 else sgn x * fl64_pos \<bar>x\<bar>)"

type_synonym jsnum = "real option"

datatype error = DivisionByZero

definition js_or :: "jsnum \<Rightarrow> jsnum \<Rightarrow> jsnum" where
  \<comment> \<open>\<open>x || d\<close>: \<open>undefined\<close>, \<open>NaN\<close> and \<open>0\<close> are falsy.\<close>
  "js_or x d = (case x of None \<Rightarrow> d | Some v \<Rightarrow> if v = 0 then d else Some v)"

definition js_nullish :: "jsnum \<Rightarrow> jsnum \<Rightarrow> jsnum" where
  \<comment> \<open>\<open>x ?? d\<close> on a field: only \<open>undefined\<close> gives way to \<open>d\<close>.\<close>
  "js_nullish x d = (case x of None \<Rightarrow> d | Some v \<Rightarrow> Some v)"

definition js_lt :: "jsnum \<Rightarrow> jsnum \<Rightarrow> bool" where
  \<comment> \<open>\<open>a < b\<close>: false as soon as one side is no number.\<close>
  "js_lt a b = (case a of None \<Rightarrow> False | Some x \<Rightarrow> (case b of None \<Rightarrow> False | Some y \<Rightarrow> x < y))"

definition js_gt :: "jsnum \<Rightarrow> jsnum \<Rightarrow> bool" where
  "js_gt a b = (case a of None \<Rightarrow> False | Some x \<Rightarrow> (case b of None \<Rightarrow> False | Some y \<Rightarrow> x > y))"

definition js_add :: "jsnum \<Rightarrow> jsnum \<Rightarrow> jsnum" where
  "js_add a b =
     (case a of None \<Rightarrow> None
      | Some x \<Rightarrow> (case b of None \<Rightarrow> None | Some y \<Rightarrow> Some (fl64 (x + y))))"

definition js_sub :: "jsnum \<Rightarrow> jsnum \<Rightarrow> jsnum" where
  "js_sub a b =
     (case a of None \<Rightarrow> None
      | Some x \<Rightarrow> (case b of None \<Rightarrow> None | Some y \<Rightarrow> Some (fl64 (x - y))))"

definition js_mul :: "jsnum \<Rightarrow> jsnum \<Rightarrow> jsnum" where
  "js_mul a b =
     (case a of None \<Rightarrow> None
      | Some x \<Rightarrow> (case b of None \<Rightarrow> None | Some y \<Rightarrow> Some (fl64 (x * y))))"

definition js_div :: "jsnum \<Rightarrow> jsnum \<Rightarrow> error + jsnum" where
  "js_div a b =
     (case a of None \<Rightarrow> Inr None
      | Some x \<Rightarrow> (case b of None \<Rightarrow> Inr None
                   | Some y \<Rightarrow> if y = 0 then Inl DivisionByZero
                               else Inr (Some (fl64 (x / y)))))"

definition Math_max :: "jsnum \<Rightarrow> jsnum \<Rightarrow> jsnum" where
  \<comment> \<open>\<open>Math.max(a, b)\<close> is \<open>NaN\<close> when an argument is.\<close>
  "Math_max a b = (case a of None \<Rightarrow> None | Some x \<Rightarrow> (case b of None \<Rightarrow> None | Some y \<Rightarrow> Some (max x y)))"

definition Math_min :: "jsnum \<Rightarrow> jsnum \<Rightarrow> jsnum" where
  "Math_min a b = (case a of None \<Rightarrow> None | Some x \<Rightarrow> (case b of None \<Rightarrow> None | Some y \<Rightarrow> Some (min x y)))"

subsection \<open>The rectangle and the canvas\<close>

text \<open>
  The fields of the drawing library's rectangle that the component reads or writes. The
  field \<open>top\<close> of the source is \<open>top_rect\<close> here and \<open>left\<close> is \<open>left_rect\<close>.
\<close>

record Point =
  point_x :: jsnum
  point_y :: jsnum

record Corners =
  corner_tl :: Point
  corner_tr :: Point
  corner_bl :: Point
  corner_br :: Point

record ControlsVisibility =
  vis_mt :: bool
  vis_mb :: bool
  vis_ml :: bool
  vis_mr :: bool
  vis_mtr :: bool
  vis_tl :: bool
  vis_tr :: bool
  vis_bl :: bool
  vis_br :: bool

record Rect =
  left_rect :: jsnum
  top_rect :: jsnum
  width :: jsnum
  height :: jsnum
  scaleX :: jsnum
  scaleY :: jsnum
  stroke :: string
  strokeWidth :: jsnum
  hasRotatingControl :: bool
  controlsVisibility :: ControlsVisibility
  aCoords :: Corners

record Canvas =
  canvas_width :: real
  canvas_height :: real
  renderRequested :: bool

definition getWidth :: "Canvas \<Rightarrow> jsnum" where
  "getWidth c = Some (canvas_width c)"

definition getHeight :: "Canvas \<Rightarrow> jsnum" where
  "getHeight c = Some (canvas_height c)"

text \<open>
  Modelled from the spec: \<open>getScaledWidth\<close> and \<open>getScaledHeight\<close> are methods of the
  drawing library, which is not part of the sources. The spec's data model gives
  \<open>scaledWidth = width \<times> scaleX\<close> and \<open>scaledHeight = height \<times> scaleY\<close>.
\<close>

definition getScaledWidth :: "Rect \<Rightarrow> jsnum" where
  "getScaledWidth r = js_mul (width r) (scaleX r)"

definition getScaledHeight :: "Rect \<Rightarrow> jsnum" where
  "getScaledHeight r = js_mul (height r) (scaleY r)"

text \<open>
  Modelled from the spec: \<open>setCoords\<close> is a method of the drawing library; the spec has it
  recompute the rectangle's cached corner coordinates. The corners are those of the
  spec's bounding box \<open>{left, top, scaledWidth, scaledHeight}\<close>.
\<close>

definition calcACoords :: "Rect \<Rightarrow> Corners" where
  "calcACoords r =
     (let l = left_rect r; t = top_rect r;
          x2 = js_add l (getScaledWidth r); y2 = js_add t (getScaledHeight r)
      in \<lparr>corner_tl = \<lparr>point_x = l, point_y = t\<rparr>,
          corner_tr = \<lparr>point_x = x2, point_y = t\<rparr>,
          corner_bl = \<lparr>point_x = l, point_y = y2\<rparr>,
          corner_br = \<lparr>point_x = x2, point_y = y2\<rparr>\<rparr>)"

definition setCoords :: "Rect \<Rightarrow> Rect" where
  "setCoords r = r\<lparr>aCoords := calcACoords r\<rparr>"

text \<open>
  Modelled from the spec: \<open>requestRenderAll\<close> is a method of the drawing library; the spec
  has it request a redraw of the surface, which is all the model records.
\<close>

definition requestRenderAll :: "Canvas \<Rightarrow> Canvas" where
  "requestRenderAll c = c\<lparr>renderRequested := True\<rparr>"

subsection \<open>The constraint function\<close>

definition clamp :: "jsnum \<Rightarrow> jsnum \<Rightarrow> jsnum \<Rightarrow> jsnum" where
  "clamp v lo hi = (if js_lt v lo then lo else if js_gt v hi then hi else v)"

definition keepRectInsideCanvas :: "Rect \<Rightarrow> Canvas \<Rightarrow> bool \<Rightarrow> error + (Rect \<times> Canvas)" where
  "keepRectInsideCanvas rect fabricCanvas lockAspect =
     (let canvasWidth = getWidth fabricCanvas;
          canvasHeight = getHeight fabricCanvas;
          baseWidth = js_or (width rect) (Some 0);
          baseHeight = js_or (height rect) (Some 0);
          currentScaleX = js_or (scaleX rect) (Some 1);
          currentScaleY = js_or (scaleY rect) (Some 1)
      in case
           (if js_gt baseWidth (Some 0) \<and> js_gt baseHeight (Some 0) then
              (case js_div canvasWidth baseWidth of
                 Inl e \<Rightarrow> Inl e
               | Inr maxScaleX \<Rightarrow>
                   (case js_div canvasHeight baseHeight of
                      Inl e \<Rightarrow> Inl e
                    | Inr maxScaleY \<Rightarrow>
                        Inr (if lockAspect then
                               (let maxUniformScale = Math_min maxScaleX maxScaleY
                                in if js_gt currentScaleX maxUniformScale
                                      \<or> js_gt currentScaleY maxUniformScale
                                   then rect\<lparr>scaleX := maxUniformScale, scaleY := maxUniformScale\<rparr>
                                   else rect)
                             else
                               (let rect1 = (if js_gt currentScaleX maxScaleX
                                             then rect\<lparr>scaleX := maxScaleX\<rparr> else rect)
                                in if js_gt currentScaleY maxScaleY
                                   then rect1\<lparr>scaleY := maxScaleY\<rparr> else rect1))))
            else Inr rect)
         of
           Inl e \<Rightarrow> Inl e
         | Inr rect2 \<Rightarrow>
             (let scaledWidth = getScaledWidth rect2;
                  scaledHeight = getScaledHeight rect2;
                  maxLeft = Math_max (js_sub canvasWidth scaledWidth) (Some 0);
                  maxTop = Math_max (js_sub canvasHeight scaledHeight) (Some 0);
                  nextLeft = clamp (js_nullish (left_rect rect2) (Some 0)) (Some 0) maxLeft;
                  nextTop = clamp (js_nullish (top_rect rect2) (Some 0)) (Some 0) maxTop;
                  rect3 = rect2\<lparr>left_rect := nextLeft, top_rect := nextTop\<rparr>
              in Inr (setCoords rect3, requestRenderAll fabricCanvas)))"

subsection \<open>The component and its reconfigure effect\<close>

text \<open>
  The arguments sent by the host. The field \<open>strokeWidth\<close> of the source's \<open>PythonArgs\<close> is
  \<open>strokeWidthArg\<close> here, the rectangle having a field of that name already.
\<close>

record PythonArgs =
  canvasWidth :: real
  canvasHeight :: real
  rectTop :: real
  rectLeft :: real
  rectWidth :: real
  rectHeight :: real
  realtimeUpdate :: bool
  boxColor :: string
  strokeWidthArg :: real
  imageData :: string
  lockAspect :: bool

text \<open>
  The state the effects of the component share: the \<open>canvas\<close> state variable and
  \<open>rectRef.current\<close>, both \<open>null\<close> until the first initialisation.
\<close>

record Component =
  canvas :: "Canvas option"
  rectRef :: "Rect option"

text \<open>
  Modelled from the spec: \<open>setControlsVisibility\<close> is a method of the drawing library; the
  spec's rendering surface contract gives it a map from handle name to boolean, which the
  model stores.
\<close>

definition setControlsVisibility :: "Rect \<Rightarrow> ControlsVisibility \<Rightarrow> Rect" where
  "setControlsVisibility r v = r\<lparr>controlsVisibility := v\<rparr>"

text \<open>
  The effect that runs when \<open>props.args\<close> or \<open>canvas\<close> change (lines 138 to 166 of the
  source).
\<close>

definition reconfigure :: "PythonArgs \<Rightarrow> Component \<Rightarrow> error + Component" where
  "reconfigure args st =
     (case canvas st of
        None \<Rightarrow> Inr st
      | Some cv \<Rightarrow>
          (case rectRef st of
             None \<Rightarrow> Inr st
           | Some rect \<Rightarrow>
               (let rect1 = rect\<lparr>left_rect := Some (rectLeft args),
                                 top_rect := Some (rectTop args),
                                 width := Some (rectWidth args),
                                 height := Some (rectHeight args),
                                 stroke := boxColor args,
                                 strokeWidth := Some (strokeWidthArg args),
                                 hasRotatingControl := False\<rparr>;
                    rect2 = setControlsVisibility rect1
                              \<lparr>vis_mt = \<not> lockAspect args, vis_mb = \<not> lockAspect args,
                               vis_ml = \<not> lockAspect args, vis_mr = \<not> lockAspect args,
                               vis_mtr = False, vis_tl = True, vis_tr = True,
                               vis_bl = True, vis_br = True\<rparr>;
                    rect3 = setCoords rect2;
                    cv1 = requestRenderAll cv
                in case keepRectInsideCanvas rect3 cv1 (lockAspect args) of
                     Inl e \<Rightarrow> Inl e
                   | Inr (rect4, cv2) \<Rightarrow> Inr \<lparr>canvas = Some cv2, rectRef = Some rect4\<rparr>)))"

subsection \<open>The two steps of the constraint function on numbers\<close>

text \<open>
  For the proofs, the scale factors and the position that \<open>keepRectInsideCanvas\<close> commits
  are written as functions of the numbers alone, with the divisions under their guard.
  Lemma \<open>keepRectInsideCanvas_eq\<close> below shows that the source function computes exactly
  these. \<open>is_double\<close> holds of the numbers that rounding leaves as they are.
\<close>

definition is_double :: "real \<Rightarrow> bool" where
  "is_double x = (fl64 x = x)"

definition fitScales ::
  "jsnum \<Rightarrow> jsnum \<Rightarrow> jsnum \<Rightarrow> jsnum \<Rightarrow> real \<Rightarrow> real \<Rightarrow> bool \<Rightarrow> jsnum \<times> jsnum" where
  "fitScales w h sx sy cw ch lock =
     (case w of
        None \<Rightarrow> (sx, sy)
      | Some bw \<Rightarrow>
          (case h of
             None \<Rightarrow> (sx, sy)
           | Some bh \<Rightarrow>
               if 0 < bw \<and> 0 < bh then
                 (if lock then
                    (if js_gt (js_or sx (Some 1)) (Some (min (fl64 (cw / bw)) (fl64 (ch / bh))))
                        \<or> js_gt (js_or sy (Some 1)) (Some (min (fl64 (cw / bw)) (fl64 (ch / bh))))
                     then (Some (min (fl64 (cw / bw)) (fl64 (ch / bh))),
                           Some (min (fl64 (cw / bw)) (fl64 (ch / bh))))
                     else (sx, sy))
                  else
                    (if js_gt (js_or sx (Some 1)) (Some (fl64 (cw / bw)))
                     then Some (fl64 (cw / bw)) else sx,
                     if js_gt (js_or sy (Some 1)) (Some (fl64 (ch / bh)))
                     then Some (fl64 (ch / bh)) else sy))
               else (sx, sy)))"

definition fitPosition :: "jsnum \<Rightarrow> real \<Rightarrow> jsnum \<Rightarrow> jsnum" where
  "fitPosition v cdim sdim =
     clamp (js_nullish v (Some 0)) (Some 0) (Math_max (js_sub (Some cdim) sdim) (Some 0))"

definition fitted :: "Rect \<Rightarrow> Canvas \<Rightarrow> bool \<Rightarrow> Rect" where
  "fitted r c lock =
     (let p = fitScales (width r) (height r) (scaleX r) (scaleY r)
                (canvas_width c) (canvas_height c) lock
      in r\<lparr>scaleX := fst p, scaleY := snd p,
           left_rect := fitPosition (left_rect r) (canvas_width c) (js_mul (width r) (fst p)),
           top_rect := fitPosition (top_rect r) (canvas_height c) (js_mul (height r) (snd p))\<rparr>)"

subsection \<open>Example values\<close>

definition originCorners :: Corners where
  "originCorners =
     \<lparr>corner_tl = \<lparr>point_x = Some 0, point_y = Some 0\<rparr>,
      corner_tr = \<lparr>point_x = Some 0, point_y = Some 0\<rparr>,
      corner_bl = \<lparr>point_x = Some 0, point_y = Some 0\<rparr>,
      corner_br = \<lparr>point_x = Some 0, point_y = Some 0\<rparr>\<rparr>"

definition allHandles :: ControlsVisibility where
  "allHandles =
     \<lparr>vis_mt = True, vis_mb = True, vis_ml = True, vis_mr = True, vis_mtr = False,
      vis_tl = True, vis_tr = True, vis_bl = True, vis_br = True\<rparr>"

definition mkRect :: "real \<Rightarrow> real \<Rightarrow> real \<Rightarrow> real \<Rightarrow> real \<Rightarrow> real \<Rightarrow> Rect" where
  \<comment> \<open>A blue rectangle of the given left, top, width, height, scaleX and scaleY.\<close>
  "mkRect l t w h sx sy =
     setCoords \<lparr>left_rect = Some l, top_rect = Some t, width = Some w, height = Some h,
                scaleX = Some sx, scaleY = Some sy, stroke = ''blue'', strokeWidth = Some 2,
                hasRotatingControl = False, controlsVisibility = allHandles,
                aCoords = originCorners\<rparr>"

definition mkCanvas :: "real \<Rightarrow> real \<Rightarrow> Canvas" where
  "mkCanvas w h = \<lparr>canvas_width = w, canvas_height = h, renderRequested = False\<rparr>"

definition recolour :: PythonArgs where
  \<comment> \<open>A configuration update that changes the colour and repeats the initial geometry.\<close>
  "recolour =
     \<lparr>canvasWidth = 400, canvasHeight = 300, rectTop = 50, rectLeft = 50,
      rectWidth = 100, rectHeight = 100, realtimeUpdate = True, boxColor = ''red'',
      strokeWidthArg = 2, imageData = [], lockAspect = False\<rparr>"

section \<open>Properties\<close>

subsection \<open>Rounding to a double\<close>

lemma rne_of_int: "rne (of_int k) = k"
  by (simp add: rne_def)

lemma rne_error: "\<bar>of_int (rne x) - x\<bar> \<le> 1 / 2"
  unfolding rne_def Let_def by (auto simp: abs_le_iff)

lemma rne_mono: "a \<le> b \<Longrightarrow> rne a \<le> rne b"
proof -
  assume ab: "a \<le> b"
  have lo: "\<lfloor>x\<rfloor> \<le> rne x" and hi: "rne x \<le> \<lfloor>x\<rfloor> + 1" for x
    by (simp_all add: rne_def Let_def)
  show ?thesis
  proof (cases "\<lfloor>a\<rfloor> = \<lfloor>b\<rfloor>")
    case True
    with ab show ?thesis by (auto simp: rne_def Let_def)
  next
    case False
    with ab have "\<lfloor>a\<rfloor> + 1 \<le> \<lfloor>b\<rfloor>" using floor_mono [OF ab] by linarith
    with lo [of b] hi [of a] show ?thesis by linarith
  qed
qed

lemma powr_powi: "2 powr (real_of_int e) = (2::real) powi e" "2 powr (real_of_int e + 1) = (2::real) powi (e + 1)"
  using powr_real_of_int' [of "2::real" e] powr_real_of_int' [of "2::real" "e + 1"] by simp_all

lemma floor_log2:
  assumes "0 < y"
  shows "2 powi \<lfloor>log 2 y\<rfloor> \<le> y" "y < 2 powi (\<lfloor>log 2 y\<rfloor> + 1)"
  using floor_log_eq_powr_iff [of y 2 "\<lfloor>log 2 y\<rfloor>"] assms
  by (simp_all add: powr_powi)

lemma floor_log2_eq:
  assumes "2 powi e \<le> y" "y < 2 powi (e + 1)"
  shows "\<lfloor>log 2 y\<rfloor> = e"
proof -
  have "0 < y" using assms(1) zero_less_power_int [of "2::real" e] by linarith
  then show ?thesis
    using floor_log_eq_powr_iff [of y 2 e] assms by (simp add: powr_powi)
qed

lemma fl64_pos_eval:
  assumes "2 powi e \<le> y" "y < 2 powi (e + 1)"
  shows "fl64_pos y = of_int (rne (y * 2 powi (52 - e))) * 2 powi (e - 52)"
  by (simp add: fl64_pos_def floor_log2_eq [OF assms])

lemma fl64_pos_error:
  assumes "0 < y"
  shows "\<bar>fl64_pos y - y\<bar> \<le> y / 2 ^ 53"
proof -
  define e where "e = \<lfloor>log 2 y\<rfloor>"
  define m where "m = y * 2 powi (52 - e)"
  have u: "(0::real) < 2 powi (e - 52)" by simp
  have inv: "2 powi (52 - e) * 2 powi (e - 52) = (1::real)"
    by (simp flip: power_int_add)
  have y: "y = m * 2 powi (e - 52)"
    using inv by (simp add: m_def mult.assoc)
  have f: "fl64_pos y = of_int (rne m) * 2 powi (e - 52)"
    by (simp add: fl64_pos_def Let_def e_def m_def)
  have "of_int (rne m) * 2 powi (e - 52) - m * 2 powi (e - 52)
          = (of_int (rne m) - m) * 2 powi (e - 52)"
    by (simp add: algebra_simps)
  with f y have "fl64_pos y - y = (of_int (rne m) - m) * 2 powi (e - 52)"
    by linarith
  then have "\<bar>fl64_pos y - y\<bar> = \<bar>of_int (rne m) - m\<bar> * 2 powi (e - 52)"
    using u by (simp add: abs_mult)
  also have "\<dots> \<le> (1 / 2) * 2 powi (e - 52)"
    using rne_error [of m] u by (simp add: mult_right_mono)
  also have "\<dots> = 2 powi e / 2 ^ 53"
    by (simp add: power_int_diff)
  also have "\<dots> \<le> y / 2 ^ 53"
    using floor_log2(1) [OF assms] by (simp add: e_def divide_right_mono)
  finally show ?thesis .
qed

lemma fl64_cases:
  "fl64 0 = 0" "0 < x \<Longrightarrow> fl64 x = fl64_pos x" "x < 0 \<Longrightarrow> fl64 x = - fl64_pos (- x)"
  by (simp_all add: fl64_def)

lemma fl64_error: "\<bar>fl64 x - x\<bar> \<le> \<bar>x\<bar> / 2 ^ 53"
proof -
  consider "x = 0" | "0 < x" | "x < 0" by linarith
  then show ?thesis
  proof cases
    case 1
    then show ?thesis by (simp add: fl64_cases)
  next
    case 2
    then show ?thesis using fl64_pos_error [of x] by (simp add: fl64_cases)
  next
    case 3
    then have "\<bar>fl64 x - x\<bar> = \<bar>fl64_pos (- x) - (- x)\<bar>"
      by (simp add: fl64_cases abs_minus_commute)
    then show ?thesis using 3 fl64_pos_error [of "- x"] by simp
  qed
qed

lemma fl64_pos_of_int:
  assumes "0 < n" "n < 2 ^ 53"
  shows "fl64_pos (of_int n) = of_int n"
proof -
  define e where "e = \<lfloor>log 2 (real_of_int n)\<rfloor>"
  have pos: "0 < real_of_int n" using assms(1) by simp
  have lo: "2 powi e \<le> real_of_int n" and hi: "real_of_int n < 2 powi (e + 1)"
    using floor_log2 [OF pos] by (simp_all add: e_def)
  have "e < 53"
  proof (rule ccontr)
    assume "\<not> e < 53"
    then have "(2::real) powi 53 \<le> 2 powi e"
      by (intro power_int_increasing) simp_all
    moreover have "real_of_int n < 2 powi 53"
      using assms(2) by (metis of_int_less_iff of_int_numeral of_int_power power_int_numeral)
    ultimately show False using lo by linarith
  qed
  have "0 \<le> e"
  proof (rule ccontr)
    assume "\<not> 0 \<le> e"
    then have "(2::real) powi (e + 1) \<le> 2 powi 0"
      by (intro power_int_increasing) simp_all
    moreover have "1 \<le> real_of_int n" using assms(1) by simp
    ultimately show False using hi by simp
  qed
  define k where "k = nat (52 - e)"
  have p: "(2::real) powi (52 - e) = of_int (2 ^ k)"
    using \<open>e < 53\<close> by (simp add: k_def power_int_nonneg_exp)
  have inv: "2 powi (52 - e) * 2 powi (e - 52) = (1::real)"
    by (simp flip: power_int_add)
  have "rne (real_of_int n * 2 powi (52 - e)) = n * 2 ^ k"
    unfolding p by (metis of_int_mult rne_of_int)
  then have "fl64_pos (of_int n) = of_int (n * 2 ^ k) * 2 powi (e - 52)"
    by (simp add: fl64_pos_def Let_def e_def)
  also have "\<dots> = of_int n * (2 powi (52 - e) * 2 powi (e - 52))"
    unfolding p by simp
  finally show ?thesis using inv by simp
qed

lemma fl64_of_int:
  assumes "\<bar>n\<bar> < 2 ^ 53"
  shows "fl64 (of_int n) = of_int n"
proof -
  consider "n = 0" | "0 < n" | "n < 0" by linarith
  then show ?thesis
  proof cases
    case 1
    then show ?thesis by (simp add: fl64_cases)
  next
    case 2
    then show ?thesis using assms fl64_pos_of_int [of n] by (simp add: fl64_cases)
  next
    case 3
    then show ?thesis using assms fl64_pos_of_int [of "- n"] by (simp add: fl64_cases)
  qed
qed

lemma fl64_numeral [simp]:
  "(numeral k :: int) < 2 ^ 53 \<Longrightarrow> fl64 (numeral k) = numeral k"
  "(numeral k :: int) < 2 ^ 53 \<Longrightarrow> fl64 (- numeral k) = - numeral k"
  using fl64_of_int [of "numeral k"] fl64_of_int [of "- numeral k"] by simp_all

lemma fl64_0_1 [simp]: "fl64 0 = 0" "fl64 1 = 1"
  using fl64_of_int [of 0] fl64_of_int [of 1] by simp_all

lemma fl64_pos_range:
  assumes "0 < y"
  shows "2 powi \<lfloor>log 2 y\<rfloor> \<le> fl64_pos y" "fl64_pos y \<le> 2 powi (\<lfloor>log 2 y\<rfloor> + 1)"
proof -
  define e where "e = \<lfloor>log 2 y\<rfloor>"
  define m where "m = y * 2 powi (52 - e)"
  have u: "(0::real) < 2 powi (52 - e)" "(0::real) < 2 powi (e - 52)" by simp_all
  have "2 powi e * 2 powi (52 - e) \<le> m"
    using floor_log2(1) [OF assms] u(1) by (simp add: m_def e_def)
  then have "real_of_int (2 ^ 52) \<le> m"
    by (simp flip: power_int_add)
  then have lo: "2 ^ 52 \<le> rne m"
    using rne_mono rne_of_int by metis
  have "m \<le> 2 powi (e + 1) * 2 powi (52 - e)"
    using floor_log2(2) [OF assms] u(1) by (simp add: m_def e_def)
  then have "m \<le> real_of_int (2 ^ 53)"
    by (simp flip: power_int_add)
  then have hi: "rne m \<le> 2 ^ 53"
    using rne_mono rne_of_int by metis
  have f: "fl64_pos y = of_int (rne m) * 2 powi (e - 52)"
    by (simp add: fl64_pos_def Let_def e_def m_def)
  have "2 powi e = real_of_int (2 ^ 52) * 2 powi (e - 52)"
    by (simp add: power_int_diff)
  also have "\<dots> \<le> of_int (rne m) * 2 powi (e - 52)"
    using lo u(2) by (intro mult_right_mono) simp_all
  finally show "2 powi \<lfloor>log 2 y\<rfloor> \<le> fl64_pos y"
    by (simp add: f e_def)
  have "of_int (rne m) * 2 powi (e - 52) \<le> real_of_int (2 ^ 53) * 2 powi (e - 52)"
    using hi u(2) by (intro mult_right_mono) simp_all
  also have "\<dots> = 2 powi (e + 1)"
    by (simp add: power_int_diff power_int_add)
  finally show "fl64_pos y \<le> 2 powi (\<lfloor>log 2 y\<rfloor> + 1)"
    by (simp add: f e_def)
qed

lemma fl64_pos_positive: "0 < y \<Longrightarrow> 0 < fl64_pos y"
  using fl64_pos_range(1) [of y] zero_less_power_int [of "2::real" "\<lfloor>log 2 y\<rfloor>"] by linarith

lemma fl64_pos_mono:
  assumes "0 < x" "x \<le> y"
  shows "fl64_pos x \<le> fl64_pos y"
proof -
  have y: "0 < y" using assms by linarith
  have le: "\<lfloor>log 2 x\<rfloor> \<le> \<lfloor>log 2 y\<rfloor>"
    using assms by (intro floor_mono log_mono) simp_all
  show ?thesis
  proof (cases "\<lfloor>log 2 x\<rfloor> = \<lfloor>log 2 y\<rfloor>")
    case True
    have "x * 2 powi (52 - \<lfloor>log 2 y\<rfloor>) \<le> y * 2 powi (52 - \<lfloor>log 2 y\<rfloor>)"
      using assms(2) by (intro mult_right_mono) simp_all
    then have "rne (x * 2 powi (52 - \<lfloor>log 2 y\<rfloor>)) \<le> rne (y * 2 powi (52 - \<lfloor>log 2 y\<rfloor>))"
      by (rule rne_mono)
    then show ?thesis
      by (simp add: fl64_pos_def Let_def True mult_right_mono)
  next
    case False
    with le have "\<lfloor>log 2 x\<rfloor> + 1 \<le> \<lfloor>log 2 y\<rfloor>" by linarith
    then have "(2::real) powi (\<lfloor>log 2 x\<rfloor> + 1) \<le> 2 powi \<lfloor>log 2 y\<rfloor>"
      by (intro power_int_increasing) simp_all
    then show ?thesis
      using fl64_pos_range(2) [OF assms(1)] fl64_pos_range(1) [OF y] by linarith
  qed
qed

lemma fl64_mono:
  assumes "x \<le> y"
  shows "fl64 x \<le> fl64 y"
proof -
  consider "0 < x" | "x = 0" "y = 0" | "x = 0" "0 < y" | "x < 0" "y < 0" | "x < 0" "y = 0" | "x < 0" "0 < y"
    using assms by linarith
  then show ?thesis
  proof cases
    case 1
    then show ?thesis using assms fl64_pos_mono [of x y] by (simp add: fl64_cases)
  next
    case 2
    then show ?thesis by simp
  next
    case 3
    then show ?thesis using fl64_pos_positive [of y] by (simp add: fl64_cases)
  next
    case 4
    then show ?thesis using assms fl64_pos_mono [of "- y" "- x"] by (simp add: fl64_cases)
  next
    case 5
    then show ?thesis using fl64_pos_positive [of "- x"] by (simp add: fl64_cases)
  next
    case 6
    then show ?thesis using fl64_pos_positive [of "- x"] fl64_pos_positive [of y]
      by (simp add: fl64_cases)
  qed
qed

lemma is_double_le_fl64: "is_double s \<Longrightarrow> s \<le> q \<Longrightarrow> s \<le> fl64 q"
  using fl64_mono [of s q] by (simp add: is_double_def)

subsection \<open>Arithmetic of the number model\<close>

lemma js_or_simps:
  "js_or None d = d"
  "js_or (Some v) d = (if v = 0 then d else Some v)"
  by (simp_all add: js_or_def)

lemma js_nullish_simps:
  "js_nullish None d = d"
  "js_nullish (Some v) d = Some v"
  by (simp_all add: js_nullish_def)

lemma js_gt_simps:
  "js_gt None b = False"
  "js_gt a None = False"
  "js_gt (Some x) (Some y) = (y < x)"
  by (simp_all add: js_gt_def split: option.split)

lemma js_lt_simps:
  "js_lt None b = False"
  "js_lt a None = False"
  "js_lt (Some x) (Some y) = (x < y)"
  by (simp_all add: js_lt_def split: option.split)

lemma js_arith_simps:
  "js_add None b = None" "js_add a None = None" "js_add (Some x) (Some y) = Some (fl64 (x + y))"
  "js_sub None b = None" "js_sub a None = None" "js_sub (Some x) (Some y) = Some (fl64 (x - y))"
  "js_mul None b = None" "js_mul a None = None" "js_mul (Some x) (Some y) = Some (fl64 (x * y))"
  "Math_max None b = None" "Math_max a None = None" "Math_max (Some x) (Some y) = Some (max x y)"
  "Math_min None b = None" "Math_min a None = None" "Math_min (Some x) (Some y) = Some (min x y)"
  by (simp_all add: js_add_def js_sub_def js_mul_def Math_max_def Math_min_def split: option.split)

lemma js_div_Some: "y \<noteq> 0 \<Longrightarrow> js_div (Some x) (Some y) = Inr (Some (fl64 (x / y)))"
  by (simp add: js_div_def)

lemma clamp_Some:
  "clamp (Some v) (Some lo) (Some hi) = Some (if v < lo then lo else if hi < v then hi else v)"
  by (simp add: clamp_def js_lt_simps js_gt_simps)

subsection \<open>The source function computes the two steps\<close>

lemma keep_degenerate:
  assumes "\<not> js_gt (js_or (width r) (Some 0)) (Some 0)
         \<or> \<not> js_gt (js_or (height r) (Some 0)) (Some 0)"
  shows "keepRectInsideCanvas r c lock =
     Inr (setCoords
            (r\<lparr>left_rect := fitPosition (left_rect r) (canvas_width c) (js_mul (width r) (scaleX r)),
               top_rect := fitPosition (top_rect r) (canvas_height c) (js_mul (height r) (scaleY r))\<rparr>),
          requestRenderAll c)"
  using assms
  by (elim disjE)
     (simp_all add: keepRectInsideCanvas_def fitPosition_def Let_def getWidth_def getHeight_def
        getScaledWidth_def getScaledHeight_def)

lemma keep_unlocked:
  assumes "width r = Some w" "0 < w" "height r = Some h" "0 < h"
  shows "keepRectInsideCanvas r c False = Inr (setCoords (fitted r c False), requestRenderAll c)"
  using assms unfolding keepRectInsideCanvas_def fitted_def fitScales_def fitPosition_def Let_def
  by (simp add: js_or_simps js_gt_simps js_div_Some getWidth_def getHeight_def
        getScaledWidth_def getScaledHeight_def)

lemma keep_locked:
  assumes "width r = Some w" "0 < w" "height r = Some h" "0 < h"
  shows "keepRectInsideCanvas r c True = Inr (setCoords (fitted r c True), requestRenderAll c)"
  using assms unfolding keepRectInsideCanvas_def fitted_def fitScales_def fitPosition_def Let_def
  by (simp add: js_or_simps js_gt_simps js_div_Some getWidth_def getHeight_def
        getScaledWidth_def getScaledHeight_def js_arith_simps)

lemma fitScales_degenerate:
  assumes "\<not> js_gt (js_or w (Some 0)) (Some 0) \<or> \<not> js_gt (js_or h (Some 0)) (Some 0)"
  shows "fitScales w h sx sy cw ch lock = (sx, sy)"
  using assms
  by (cases w; cases h) (auto simp: fitScales_def js_or_simps js_gt_simps split: if_splits)

lemma keepRectInsideCanvas_eq:
  "keepRectInsideCanvas r c lock = Inr (setCoords (fitted r c lock), requestRenderAll c)"
proof (cases "js_gt (js_or (width r) (Some 0)) (Some 0)
            \<and> js_gt (js_or (height r) (Some 0)) (Some 0)")
  case True
  then obtain w h where wh: "width r = Some w" "0 < w" "height r = Some h" "0 < h"
    by (cases "width r"; cases "height r") (auto simp: js_or_simps js_gt_simps split: if_splits)
  show ?thesis
    by (cases lock) (simp_all add: keep_unlocked [OF wh] keep_locked [OF wh])
next
  case False
  then have deg: "\<not> js_gt (js_or (width r) (Some 0)) (Some 0)
                \<or> \<not> js_gt (js_or (height r) (Some 0)) (Some 0)"
    by blast
  have "fitted r c lock =
          r\<lparr>left_rect := fitPosition (left_rect r) (canvas_width c) (js_mul (width r) (scaleX r)),
            top_rect := fitPosition (top_rect r) (canvas_height c) (js_mul (height r) (scaleY r))\<rparr>"
    by (simp add: fitted_def fitScales_degenerate [OF deg])
  then show ?thesis
    by (simp add: keep_degenerate [OF deg])
qed

subsection \<open>The position step\<close>

lemma fitPosition_Some:
  "fitPosition v cdim (Some sd) =
     Some (if (case v of None \<Rightarrow> 0 | Some x \<Rightarrow> x) < 0 then 0
           else if max (fl64 (cdim - sd)) 0 < (case v of None \<Rightarrow> 0 | Some x \<Rightarrow> x)
                then max (fl64 (cdim - sd)) 0
           else (case v of None \<Rightarrow> 0 | Some x \<Rightarrow> x))"
  by (cases v) (simp_all add: fitPosition_def js_nullish_simps js_arith_simps clamp_Some)

lemma fitPosition_None:
  "fitPosition v cdim None =
     Some (if (case v of None \<Rightarrow> 0 | Some x \<Rightarrow> x) < 0 then 0
           else (case v of None \<Rightarrow> 0 | Some x \<Rightarrow> x))"
  by (cases v)
     (simp_all add: fitPosition_def js_nullish_simps js_arith_simps clamp_def js_lt_simps js_gt_simps)

lemma fitPosition_idem:
  "fitPosition (fitPosition v cdim sd) cdim sd = fitPosition v cdim sd"
  by (cases sd) (simp_all add: fitPosition_Some fitPosition_None)

lemma fitPosition_range:
  "\<exists>x. fitPosition v cdim (Some sd) = Some x \<and> 0 \<le> x \<and> x \<le> max (fl64 (cdim - sd)) 0"
  by (cases v) (auto simp: fitPosition_Some)

lemma fitPosition_defined: "\<exists>x. fitPosition v cdim sd = Some x"
  by (cases sd) (simp_all add: fitPosition_Some fitPosition_None)

subsection \<open>The scale step\<close>

lemma fitScales_idem:
  "fitScales w h (fst (fitScales w h sx sy cw ch lock)) (snd (fitScales w h sx sy cw ch lock))
       cw ch lock
     = fitScales w h sx sy cw ch lock"
  by (cases w; cases h; cases lock) (simp_all add: fitScales_def js_or_simps js_gt_simps)

lemma fitScales_bounded:
  assumes "0 < bw" "0 < bh"
  shows "\<exists>x y. fitScales (Some bw) (Some bh) (Some sx) (Some sy) cw ch lock = (Some x, Some y)
            \<and> x \<le> fl64 (cw / bw) \<and> y \<le> fl64 (ch / bh)"
  using assms by (cases lock) (auto simp: fitScales_def js_or_simps js_gt_simps)

lemma fitted_idem:
  "setCoords (fitted (setCoords (fitted r c lock)) (requestRenderAll c) lock)
     = setCoords (fitted r c lock)"
  by (simp add: fitted_def setCoords_def requestRenderAll_def calcACoords_def Let_def
      getScaledWidth_def getScaledHeight_def fitScales_idem fitPosition_idem)

lemma fitScales_numeric:
  assumes "sx \<noteq> None" "sy \<noteq> None"
  shows "fst (fitScales w h sx sy cw ch lock) \<noteq> None
       \<and> snd (fitScales w h sx sy cw ch lock) \<noteq> None"
  using assms by (cases w; cases h; cases lock) (simp_all add: fitScales_def)

subsection \<open>Fields that the steps leave alone\<close>

lemma fitted_frame:
  "width (fitted r c lock) = width r" "height (fitted r c lock) = height r"
  "stroke (fitted r c lock) = stroke r" "strokeWidth (fitted r c lock) = strokeWidth r"
  by (simp_all add: fitted_def Let_def)

lemma setCoords_fields:
  "left_rect (setCoords r) = left_rect r" "top_rect (setCoords r) = top_rect r"
  "width (setCoords r) = width r" "height (setCoords r) = height r"
  "scaleX (setCoords r) = scaleX r" "scaleY (setCoords r) = scaleY r"
  "stroke (setCoords r) = stroke r" "strokeWidth (setCoords r) = strokeWidth r"
  by (simp_all add: setCoords_def)

lemma reconfigure_eq:
  assumes "canvas st = Some cv" "rectRef st = Some rect"
  shows "reconfigure args st =
     Inr \<lparr>canvas = Some (requestRenderAll cv),
          rectRef = Some (setCoords (fitted
             (rect\<lparr>left_rect := Some (rectLeft args), top_rect := Some (rectTop args),
                   width := Some (rectWidth args), height := Some (rectHeight args),
                   stroke := boxColor args, strokeWidth := Some (strokeWidthArg args),
                   hasRotatingControl := False,
                   controlsVisibility :=
                     \<lparr>vis_mt = \<not> lockAspect args, vis_mb = \<not> lockAspect args,
                      vis_ml = \<not> lockAspect args, vis_mr = \<not> lockAspect args,
                      vis_mtr = False, vis_tl = True, vis_tr = True,
                      vis_bl = True, vis_br = True\<rparr>\<rparr>)
             cv (lockAspect args)))\<rparr>"
  using assms
  by (simp add: reconfigure_def keepRectInsideCanvas_eq Let_def setControlsVisibility_def
      setCoords_def requestRenderAll_def fitted_def calcACoords_def getScaledWidth_def
      getScaledHeight_def)

lemmas example_defs = mkRect_def mkCanvas_def setCoords_def calcACoords_def requestRenderAll_def
  originCorners_def allHandles_def getScaledWidth_def getScaledHeight_def getWidth_def
  getHeight_def fitted_def fitScales_def fitPosition_Some fitPosition_None js_or_simps
  js_gt_simps js_arith_simps Let_def

subsection \<open>Rounding and the canvas bounds\<close>

lemma fl64_upper: "fl64 x \<le> x + \<bar>x\<bar> / 2 ^ 53"
  using fl64_error [of x] by linarith

lemma scaled_tolerance:
  assumes "0 < bw" "0 \<le> cw" "s \<le> fl64 (cw / bw)"
  shows "fl64 (bw * s) \<le> cw + 3 / 2 ^ 53 * cw"
proof -
  define e :: real where "e = 1 / 2 ^ 53"
  have e: "0 \<le> e" "e \<le> 1" by (simp_all add: e_def)
  define q where "q = cw / bw"
  have q: "0 \<le> q" "bw * q = cw" using assms(1,2) by (simp_all add: q_def)
  have "\<bar>q\<bar> / 2 ^ 53 = q * e"
    using q(1) by (simp add: e_def)
  then have "fl64 q \<le> q + q * e"
    using fl64_upper [of q] by linarith
  then have "s \<le> q + q * e" using assms(3) by (simp add: q_def)
  then have "bw * s \<le> bw * (q + q * e)"
    using assms(1) by (intro mult_left_mono) simp_all
  moreover have "bw * (q + q * e) = bw * q + bw * q * e"
    by (simp add: algebra_simps)
  ultimately have p: "bw * s \<le> cw + cw * e"
    by (simp only: q(2))
  have "\<bar>bw * s\<bar> / 2 ^ 53 = \<bar>bw * s\<bar> * e"
    by (simp add: e_def)
  then have err: "fl64 (bw * s) \<le> bw * s + \<bar>bw * s\<bar> * e"
    using fl64_upper [of "bw * s"] by linarith
  have ee: "cw * (e * e) \<le> cw * e"
    using e assms(2) by (intro mult_left_mono) (simp_all add: mult_left_le)
  have "fl64 (bw * s) \<le> cw + 3 * e * cw"
  proof (cases "0 \<le> bw * s")
    case True
    then have "fl64 (bw * s) \<le> bw * s * (1 + e)"
      using err by (simp add: algebra_simps)
    also have "\<dots> \<le> (cw + cw * e) * (1 + e)"
      using p e(1) by (intro mult_right_mono) simp_all
    also have "\<dots> = cw + 2 * e * cw + cw * (e * e)"
      by (simp add: algebra_simps)
    also have "\<dots> \<le> cw + 3 * e * cw"
      using ee by (simp add: algebra_simps)
    finally show ?thesis .
  next
    case False
    then have "bw * s + \<bar>bw * s\<bar> * e = bw * s * (1 - e)"
      by (simp add: algebra_simps)
    moreover have "bw * s * (1 - e) \<le> 0"
      using False e(2) mult_nonpos_nonneg [of "bw * s" "1 - e"] by simp
    moreover have "0 \<le> cw + 3 * e * cw"
      using assms(2) e(1) by simp
    ultimately show ?thesis using err by linarith
  qed
  then show ?thesis by (simp add: e_def)
qed

lemma position_tolerance:
  assumes "0 \<le> cw" "0 \<le> x" "x \<le> max (fl64 (cw - sw)) 0" "sw \<le> cw + 3 / 2 ^ 53 * cw"
  shows "x + sw \<le> cw + 3 / 2 ^ 53 * (cw + \<bar>sw\<bar>)"
proof -
  define e :: real where "e = 1 / 2 ^ 53"
  have e: "0 \<le> e" by (simp add: e_def)
  have a4: "sw \<le> cw + 3 * e * cw" using assms(4) by (simp add: e_def)
  have t: "0 \<le> e * \<bar>sw\<bar>" "0 \<le> e * cw" using e assms(1) by simp_all
  have "x + sw \<le> cw + 3 * e * (cw + \<bar>sw\<bar>)"
  proof (cases "fl64 (cw - sw) \<le> 0")
    case True
    with assms(2,3) have "x = 0" by simp
    then show ?thesis using a4 t by (simp add: algebra_simps)
  next
    case False
    then have "x \<le> fl64 (cw - sw)" using assms(3) by simp
    also have "fl64 (cw - sw) \<le> (cw - sw) + \<bar>cw - sw\<bar> * e"
      using fl64_upper [of "cw - sw"] by (simp add: e_def)
    also have "\<bar>cw - sw\<bar> * e \<le> (cw + \<bar>sw\<bar>) * e"
      using e assms(1) by (intro mult_right_mono) simp_all
    finally have "x \<le> (cw - sw) + (cw + \<bar>sw\<bar>) * e" by simp
    then show ?thesis using t by (simp add: algebra_simps)
  qed
  then show ?thesis by (simp add: e_def)
qed

lemma fl64_nonpos: "x \<le> 0 \<Longrightarrow> fl64 x \<le> 0"
  using fl64_mono [of x 0] by simp

lemma fl64_400_11: "fl64 (400 / 11) = 5117726849284655 / 2 ^ 47"
proof -
  have "fl64_pos (400 / 11) = of_int (rne (400 / 11 * 2 powi (52 - 5))) * 2 powi (5 - 52)"
    by (rule fl64_pos_eval) simp_all
  also have "\<dots> = 5117726849284655 / 2 ^ 47"
    by (simp add: rne_def Let_def)
  finally show ?thesis by (simp add: fl64_cases)
qed

lemma fl64_11_times: "fl64 (11 * (5117726849284655 / 2 ^ 47)) = 400 + 1 / 2 ^ 44"
proof -
  have "fl64_pos (11 * (5117726849284655 / 2 ^ 47))
      = of_int (rne (11 * (5117726849284655 / 2 ^ 47) * 2 powi (52 - 8))) * 2 powi (8 - 52)"
    by (rule fl64_pos_eval) simp_all
  also have "\<dots> = 400 + 1 / 2 ^ 44"
    by (simp add: rne_def Let_def)
  finally show ?thesis by (simp add: fl64_cases)
qed

lemma overshoot_run:
  assumes q: "fl64 (400 / 11) = Q" and lt: "Q < 50"
    and sw: "fl64 (11 * Q) = SW" and d: "fl64 (400 - SW) \<le> 0"
  shows "keepRectInsideCanvas (mkRect 0 0 11 10 50 1) (mkCanvas 400 300) False
           = Inr (mkRect 0 0 11 10 Q 1, requestRenderAll (mkCanvas 400 300))
       \<and> left_rect (mkRect 0 0 11 10 Q 1) = Some 0
       \<and> getScaledWidth (mkRect 0 0 11 10 Q 1) = Some SW
       \<and> getWidth (requestRenderAll (mkCanvas 400 300)) = Some 400"
  using assms by (simp add: keepRectInsideCanvas_eq example_defs max_def)

section \<open>The claims\<close>

subsection \<open>C1: the rectangle ends inside the canvas\<close>

text \<open>
  C1, as amended. For every rectangle whose base width and base height are positive and
  whose \<open>left\<close>, \<open>top\<close>, \<open>scaleX\<close> and \<open>scaleY\<close> are numbers, every canvas of at least 1 by 1
  and either value of the aspect-lock flag, a run of \<open>keepRectInsideCanvas\<close> succeeds and
  leaves \<open>left \<ge> 0\<close> and \<open>top \<ge> 0\<close>, the scale factors at most the quotients
  \<open>canvasWidth / baseWidth\<close> and \<open>canvasHeight / baseHeight\<close> as the doubles compute them,
  \<open>left\<close> at most \<open>max (canvasWidth - scaledWidth) 0\<close> as the doubles compute it (and so for
  \<open>top\<close>), and, up to the rounding of the doubles,
  \<open>left + scaledWidth \<le> canvasWidth\<close> and \<open>top + scaledHeight \<le> canvasHeight\<close>: the excess is
  at most \<open>3 / 2 ^ 53\<close> times \<open>canvasWidth + \<bar>scaledWidth\<bar>\<close>, respectively
  \<open>canvasHeight + \<bar>scaledHeight\<bar>\<close>. The scaled sizes are the base sizes times the scale
  factors of the result.
\<close>

theorem keepRectInsideCanvas_in_bounds:
  assumes "width r = Some w" "0 < w" "height r = Some h" "0 < h"
    and "scaleX r = Some sx" "scaleY r = Some sy"
    and "left_rect r = Some l0" "top_rect r = Some t0"
    and "1 \<le> canvas_width c" "1 \<le> canvas_height c"
  shows "\<exists>r' c' l t sx' sy' sw sh. keepRectInsideCanvas r c lock = Inr (r', c')
      \<and> left_rect r' = Some l \<and> top_rect r' = Some t
      \<and> scaleX r' = Some sx' \<and> scaleY r' = Some sy'
      \<and> getScaledWidth r' = Some sw \<and> getScaledHeight r' = Some sh
      \<and> sw = fl64 (w * sx') \<and> sh = fl64 (h * sy')
      \<and> getWidth c' = getWidth c \<and> getHeight c' = getHeight c
      \<and> sx' \<le> fl64 (canvas_width c / w) \<and> sy' \<le> fl64 (canvas_height c / h)
      \<and> 0 \<le> l \<and> 0 \<le> t
      \<and> l \<le> max (fl64 (canvas_width c - sw)) 0 \<and> t \<le> max (fl64 (canvas_height c - sh)) 0
      \<and> l + sw \<le> canvas_width c + 3 / 2 ^ 53 * (canvas_width c + \<bar>sw\<bar>)
      \<and> t + sh \<le> canvas_height c + 3 / 2 ^ 53 * (canvas_height c + \<bar>sh\<bar>)"
proof -
  have cw: "0 \<le> canvas_width c" and ch: "0 \<le> canvas_height c"
    using assms(9,10) by simp_all
  obtain x y where fit:
    "fitScales (Some w) (Some h) (Some sx) (Some sy) (canvas_width c) (canvas_height c) lock
       = (Some x, Some y)"
    "x \<le> fl64 (canvas_width c / w)" "y \<le> fl64 (canvas_height c / h)"
    using fitScales_bounded [OF assms(2) assms(4)] by blast
  have sw: "fl64 (w * x) \<le> canvas_width c + 3 / 2 ^ 53 * canvas_width c"
    by (rule scaled_tolerance [OF assms(2) cw fit(2)])
  have sh: "fl64 (h * y) \<le> canvas_height c + 3 / 2 ^ 53 * canvas_height c"
    by (rule scaled_tolerance [OF assms(4) ch fit(3)])
  obtain l where l: "fitPosition (left_rect r) (canvas_width c) (Some (fl64 (w * x))) = Some l"
    "0 \<le> l" "l \<le> max (fl64 (canvas_width c - fl64 (w * x))) 0"
    using fitPosition_range by blast
  obtain t where t: "fitPosition (top_rect r) (canvas_height c) (Some (fl64 (h * y))) = Some t"
    "0 \<le> t" "t \<le> max (fl64 (canvas_height c - fl64 (h * y))) 0"
    using fitPosition_range by blast
  have lt: "l + fl64 (w * x) \<le> canvas_width c + 3 / 2 ^ 53 * (canvas_width c + \<bar>fl64 (w * x)\<bar>)"
    by (rule position_tolerance [OF cw l(2) l(3) sw])
  have tt: "t + fl64 (h * y) \<le> canvas_height c + 3 / 2 ^ 53 * (canvas_height c + \<bar>fl64 (h * y)\<bar>)"
    by (rule position_tolerance [OF ch t(2) t(3) sh])
  have "fitted r c lock =
          r\<lparr>scaleX := Some x, scaleY := Some y, left_rect := Some l, top_rect := Some t\<rparr>"
    using assms fit(1) l(1) t(1) by (simp add: fitted_def Let_def js_arith_simps)
  then have "keepRectInsideCanvas r c lock = Inr (setCoords (r\<lparr>scaleX := Some x, scaleY := Some y,
       left_rect := Some l, top_rect := Some t\<rparr>), requestRenderAll c)"
    by (simp add: keepRectInsideCanvas_eq)
  moreover have "getScaledWidth (setCoords (r\<lparr>scaleX := Some x, scaleY := Some y,
       left_rect := Some l, top_rect := Some t\<rparr>)) = Some (fl64 (w * x))"
    "getScaledHeight (setCoords (r\<lparr>scaleX := Some x, scaleY := Some y,
       left_rect := Some l, top_rect := Some t\<rparr>)) = Some (fl64 (h * y))"
    using assms(1,3)
    by (simp_all add: setCoords_def getScaledWidth_def getScaledHeight_def js_arith_simps)
  ultimately show ?thesis
    using fit(2,3) l(2,3) t(2,3) lt tt
    by (simp add: setCoords_fields requestRenderAll_def getWidth_def getHeight_def)
qed

text \<open>
  A rectangle of base 100 by 100 at (380, 280), scaled five times on both axes, on a
  canvas of 400 by 300 with the aspect ratio locked.
\<close>

theorem keepRectInsideCanvas_in_bounds_witness:
  "width (mkRect 380 280 100 100 5 5) = Some 100 \<and> (0::real) < 100
   \<and> height (mkRect 380 280 100 100 5 5) = Some 100
   \<and> scaleX (mkRect 380 280 100 100 5 5) = Some 5 \<and> scaleY (mkRect 380 280 100 100 5 5) = Some 5
   \<and> left_rect (mkRect 380 280 100 100 5 5) = Some 380
   \<and> top_rect (mkRect 380 280 100 100 5 5) = Some 280
   \<and> 1 \<le> canvas_width (mkCanvas 400 300) \<and> 1 \<le> canvas_height (mkCanvas 400 300)
   \<and> (\<exists>r' c' l t sw sh.
        keepRectInsideCanvas (mkRect 380 280 100 100 5 5) (mkCanvas 400 300) True = Inr (r', c')
      \<and> left_rect r' = Some l \<and> top_rect r' = Some t
      \<and> getScaledWidth r' = Some sw \<and> getScaledHeight r' = Some sh
      \<and> 0 \<le> l \<and> 0 \<le> t
      \<and> l + sw \<le> 400 + 3 / 2 ^ 53 * (400 + \<bar>sw\<bar>)
      \<and> t + sh \<le> 300 + 3 / 2 ^ 53 * (300 + \<bar>sh\<bar>))"
proof -
  have h: "width (mkRect 380 280 100 100 5 5) = Some 100" "(0::real) < 100"
    "height (mkRect 380 280 100 100 5 5) = Some 100" "(0::real) < 100"
    "scaleX (mkRect 380 280 100 100 5 5) = Some 5" "scaleY (mkRect 380 280 100 100 5 5) = Some 5"
    "left_rect (mkRect 380 280 100 100 5 5) = Some 380"
    "top_rect (mkRect 380 280 100 100 5 5) = Some 280"
    "1 \<le> canvas_width (mkCanvas 400 300)" "1 \<le> canvas_height (mkCanvas 400 300)"
    by (simp_all add: mkRect_def mkCanvas_def setCoords_def)
  have w: "canvas_width (mkCanvas 400 300) = 400" "canvas_height (mkCanvas 400 300) = 300"
    by (simp_all add: mkCanvas_def)
  show ?thesis
    using h keepRectInsideCanvas_in_bounds [OF h, of True]
    unfolding w by blast
qed

text \<open>
  C1 as stated fails in two ways, on a canvas of 400 by 300 without the aspect lock.
  A rectangle of base width 500 and base height 0 at the origin: the base height is not
  positive, so the scale factors are not clamped, the rectangle comes back as it was, and
  \<open>left + scaledWidth = 500\<close> exceeds the canvas width.
  A rectangle of base 11 by 10 at the origin with \<open>scaleX = 50\<close>: \<open>scaleX\<close> becomes the double
  nearest to \<open>400 / 11\<close>, which lies above the quotient, the scaled width is the double
  \<open>400 + 1 / 2 ^ 44\<close>, and \<open>left + scaledWidth\<close> exceeds the canvas width by \<open>1 / 2 ^ 44\<close>.
\<close>

theorem keepRectInsideCanvas_in_bounds_counterexample:
  "keepRectInsideCanvas (mkRect 0 0 500 0 1 1) (mkCanvas 400 300) False
     = Inr (mkRect 0 0 500 0 1 1, requestRenderAll (mkCanvas 400 300))
   \<and> left_rect (mkRect 0 0 500 0 1 1) = Some 0
   \<and> getScaledWidth (mkRect 0 0 500 0 1 1) = Some 500
   \<and> getWidth (requestRenderAll (mkCanvas 400 300)) = Some 400
   \<and> \<not> ((0::real) + 500 \<le> 400)
   \<and> keepRectInsideCanvas (mkRect 0 0 11 10 50 1) (mkCanvas 400 300) False
     = Inr (mkRect 0 0 11 10 (5117726849284655 / 2 ^ 47) 1, requestRenderAll (mkCanvas 400 300))
   \<and> left_rect (mkRect 0 0 11 10 (5117726849284655 / 2 ^ 47) 1) = Some 0
   \<and> getScaledWidth (mkRect 0 0 11 10 (5117726849284655 / 2 ^ 47) 1) = Some (400 + 1 / 2 ^ 44)
   \<and> \<not> ((0::real) + (400 + 1 / 2 ^ 44) \<le> 400)"
proof -
  have a: "keepRectInsideCanvas (mkRect 0 0 500 0 1 1) (mkCanvas 400 300) False
     = Inr (mkRect 0 0 500 0 1 1, requestRenderAll (mkCanvas 400 300))
   \<and> left_rect (mkRect 0 0 500 0 1 1) = Some 0
   \<and> getScaledWidth (mkRect 0 0 500 0 1 1) = Some 500
   \<and> getWidth (requestRenderAll (mkCanvas 400 300)) = Some 400
   \<and> \<not> ((0::real) + 500 \<le> 400)"
    by (simp add: keepRectInsideCanvas_eq example_defs)
  have lt: "(5117726849284655 / 2 ^ 47 :: real) < 50" by simp
  have d: "fl64 (400 - (400 + 1 / 2 ^ 44)) \<le> 0"
    by (rule fl64_nonpos) simp
  have b: "\<not> ((0::real) + (400 + 1 / 2 ^ 44) \<le> 400)" by simp
  from a overshoot_run [OF fl64_400_11 lt fl64_11_times d] b show ?thesis
    by blast
qed

subsection \<open>C2: equal scale factors under the aspect lock\<close>

text \<open>
  C2, as amended. With the aspect-lock flag true, a run of \<open>keepRectInsideCanvas\<close>
  succeeds and leaves \<open>scaleX\<close> equal to \<open>scaleY\<close> whenever they were equal before the run,
  or the base width and height are positive and one of the scale factors (read as 1 when
  zero or unset) exceeds the smaller of the quotients \<open>canvasWidth / baseWidth\<close> and
  \<open>canvasHeight / baseHeight\<close> as the doubles compute them; in this second case both
  scale factors become that minimum.
\<close>

theorem keepRectInsideCanvas_lock_uniform:
  assumes "scaleX r = scaleY r
         \<or> (width r = Some w \<and> 0 < w \<and> height r = Some h \<and> 0 < h
            \<and> (js_gt (js_or (scaleX r) (Some 1))
                     (Some (min (fl64 (canvas_width c / w)) (fl64 (canvas_height c / h))))
               \<or> js_gt (js_or (scaleY r) (Some 1))
                     (Some (min (fl64 (canvas_width c / w)) (fl64 (canvas_height c / h))))))"
  shows "\<exists>r' c'. keepRectInsideCanvas r c True = Inr (r', c') \<and> scaleX r' = scaleY r'
      \<and> (width r = Some w \<and> 0 < w \<and> height r = Some h \<and> 0 < h
            \<and> (js_gt (js_or (scaleX r) (Some 1))
                     (Some (min (fl64 (canvas_width c / w)) (fl64 (canvas_height c / h))))
               \<or> js_gt (js_or (scaleY r) (Some 1))
                     (Some (min (fl64 (canvas_width c / w)) (fl64 (canvas_height c / h)))))
          \<longrightarrow> scaleX r' = Some (min (fl64 (canvas_width c / w)) (fl64 (canvas_height c / h)))
            \<and> scaleY r' = Some (min (fl64 (canvas_width c / w)) (fl64 (canvas_height c / h))))"
proof -
  define p where "p = fitScales (width r) (height r) (scaleX r) (scaleY r)
                        (canvas_width c) (canvas_height c) True"
  define mu where "mu = min (fl64 (canvas_width c / w)) (fl64 (canvas_height c / h))"
  have clamped: "p = (Some mu, Some mu)"
    if "width r = Some w" "0 < w" "height r = Some h" "0 < h"
       "js_gt (js_or (scaleX r) (Some 1)) (Some mu) \<or> js_gt (js_or (scaleY r) (Some 1)) (Some mu)"
    using that by (auto simp: p_def mu_def fitScales_def)
  have kept: "fst p = snd p" if "scaleX r = scaleY r"
    using that by (cases "width r"; cases "height r") (simp_all add: p_def fitScales_def)
  have eq: "fst p = snd p"
    using assms clamped kept unfolding mu_def by fastforce
  have res: "keepRectInsideCanvas r c True = Inr (setCoords (fitted r c True), requestRenderAll c)"
    "scaleX (setCoords (fitted r c True)) = fst p" "scaleY (setCoords (fitted r c True)) = snd p"
    by (simp_all add: keepRectInsideCanvas_eq setCoords_fields fitted_def Let_def p_def)
  show ?thesis
  proof (intro exI conjI impI)
    show "keepRectInsideCanvas r c True
            = Inr (setCoords (fitted r c True), requestRenderAll c)"
      by (rule res(1))
    show "scaleX (setCoords (fitted r c True)) = scaleY (setCoords (fitted r c True))"
      using eq by (simp add: res)
  next
    assume "width r = Some w \<and> 0 < w \<and> height r = Some h \<and> 0 < h
            \<and> (js_gt (js_or (scaleX r) (Some 1))
                     (Some (min (fl64 (canvas_width c / w)) (fl64 (canvas_height c / h))))
               \<or> js_gt (js_or (scaleY r) (Some 1))
                     (Some (min (fl64 (canvas_width c / w)) (fl64 (canvas_height c / h)))))"
    then have "p = (Some mu, Some mu)"
      using clamped unfolding mu_def by blast
    then show "scaleX (setCoords (fitted r c True))
                 = Some (min (fl64 (canvas_width c / w)) (fl64 (canvas_height c / h)))"
      and "scaleY (setCoords (fitted r c True))
                 = Some (min (fl64 (canvas_width c / w)) (fl64 (canvas_height c / h)))"
      by (simp_all add: res mu_def)
  qed
qed

text \<open>
  Base 100 by 100 on a canvas of 400 by 300 with scale factors 1 and 5: the second
  exceeds the uniform bound 3, and both become 3.
\<close>

theorem keepRectInsideCanvas_lock_uniform_witness:
  "width (mkRect 50 50 100 100 1 5) = Some 100 \<and> (0::real) < 100
   \<and> height (mkRect 50 50 100 100 1 5) = Some 100
   \<and> js_gt (js_or (scaleY (mkRect 50 50 100 100 1 5)) (Some 1))
        (Some (min (fl64 (canvas_width (mkCanvas 400 300) / 100))
                   (fl64 (canvas_height (mkCanvas 400 300) / 100))))
   \<and> (\<exists>r' c'. keepRectInsideCanvas (mkRect 50 50 100 100 1 5) (mkCanvas 400 300) True = Inr (r', c')
        \<and> scaleX r' = scaleY r' \<and> scaleX r' = Some 3 \<and> scaleY r' = Some 3)"
proof -
  have h: "width (mkRect 50 50 100 100 1 5) = Some 100 \<and> (0::real) < 100
   \<and> height (mkRect 50 50 100 100 1 5) = Some 100 \<and> (0::real) < 100
   \<and> (js_gt (js_or (scaleX (mkRect 50 50 100 100 1 5)) (Some 1))
        (Some (min (fl64 (canvas_width (mkCanvas 400 300) / 100))
                   (fl64 (canvas_height (mkCanvas 400 300) / 100))))
      \<or> js_gt (js_or (scaleY (mkRect 50 50 100 100 1 5)) (Some 1))
        (Some (min (fl64 (canvas_width (mkCanvas 400 300) / 100))
                   (fl64 (canvas_height (mkCanvas 400 300) / 100)))))"
    by (simp add: mkRect_def mkCanvas_def setCoords_def js_or_simps js_gt_simps)
  have m: "min (fl64 (canvas_width (mkCanvas 400 300) / 100))
               (fl64 (canvas_height (mkCanvas 400 300) / 100)) = 3"
    by (simp add: mkCanvas_def)
  have g: "js_gt (js_or (scaleY (mkRect 50 50 100 100 1 5)) (Some 1)) (Some 3)"
    by (simp add: mkRect_def setCoords_def js_or_simps js_gt_simps)
  show ?thesis
    using h g keepRectInsideCanvas_lock_uniform
      [of "mkRect 50 50 100 100 1 5" 100 100 "mkCanvas 400 300"]
    unfolding m by (simp add: mkRect_def setCoords_def)
qed

text \<open>
  C2 as stated fails on base 100 by 100, canvas 400 by 300 and scale factors 1 and 2:
  neither exceeds the uniform bound 3, the rectangle comes back as it was, and its scale
  factors differ.
\<close>

theorem keepRectInsideCanvas_lock_uniform_counterexample:
  "keepRectInsideCanvas (mkRect 50 50 100 100 1 2) (mkCanvas 400 300) True
     = Inr (mkRect 50 50 100 100 1 2, requestRenderAll (mkCanvas 400 300))
   \<and> scaleX (mkRect 50 50 100 100 1 2) = Some 1
   \<and> scaleY (mkRect 50 50 100 100 1 2) = Some 2
   \<and> scaleX (mkRect 50 50 100 100 1 2) \<noteq> scaleY (mkRect 50 50 100 100 1 2)"
  by (simp add: keepRectInsideCanvas_eq example_defs)

subsection \<open>C3: what a configuration update does to the geometry\<close>

text \<open>
  C3, as amended. On every configuration update of an initialised component, the
  reconfigure step succeeds and takes the rectangle's position and size from the incoming
  configuration: \<open>width\<close> and \<open>height\<close> are \<open>rectWidth\<close> and \<open>rectHeight\<close>, and \<open>left\<close> and
  \<open>top\<close> are \<open>rectLeft\<close> and \<open>rectTop\<close> put through the position clamp of
  \<open>keepRectInsideCanvas\<close>. The position and size the rectangle had before do not enter.
\<close>

theorem reconfigure_takes_geometry_from_args:
  assumes "canvas st = Some cv" "rectRef st = Some rect"
  shows "\<exists>cv' rect'. reconfigure args st = Inr \<lparr>canvas = Some cv', rectRef = Some rect'\<rparr>
      \<and> width rect' = Some (rectWidth args) \<and> height rect' = Some (rectHeight args)
      \<and> left_rect rect' = clamp (Some (rectLeft args)) (Some 0)
                             (Math_max (js_sub (getWidth cv) (getScaledWidth rect')) (Some 0))
      \<and> top_rect rect' = clamp (Some (rectTop args)) (Some 0)
                             (Math_max (js_sub (getHeight cv) (getScaledHeight rect')) (Some 0))"
  by (simp add: reconfigure_eq [OF assms] setCoords_def fitted_def Let_def fitPosition_def
      getScaledWidth_def getScaledHeight_def getWidth_def getHeight_def js_nullish_simps)

text \<open>
  A rectangle that was dragged to (120, 80), and an update that changes the colour.
\<close>

theorem reconfigure_takes_geometry_from_args_witness:
  "canvas \<lparr>canvas = Some (mkCanvas 400 300), rectRef = Some (mkRect 120 80 100 100 1 1)\<rparr>
     = Some (mkCanvas 400 300)
   \<and> rectRef \<lparr>canvas = Some (mkCanvas 400 300), rectRef = Some (mkRect 120 80 100 100 1 1)\<rparr>
     = Some (mkRect 120 80 100 100 1 1)
   \<and> (\<exists>cv' rect'. reconfigure recolour
          \<lparr>canvas = Some (mkCanvas 400 300), rectRef = Some (mkRect 120 80 100 100 1 1)\<rparr>
        = Inr \<lparr>canvas = Some cv', rectRef = Some rect'\<rparr>
      \<and> width rect' = Some 100 \<and> height rect' = Some 100)"
proof -
  have h: "canvas \<lparr>canvas = Some (mkCanvas 400 300), rectRef = Some (mkRect 120 80 100 100 1 1)\<rparr>
     = Some (mkCanvas 400 300)"
    "rectRef \<lparr>canvas = Some (mkCanvas 400 300), rectRef = Some (mkRect 120 80 100 100 1 1)\<rparr>
     = Some (mkRect 120 80 100 100 1 1)"
    by simp_all
  show ?thesis
    using h reconfigure_takes_geometry_from_args [OF h, of recolour]
    by (simp add: recolour_def) blast
qed

text \<open>
  C3 as stated fails there: the rectangle stood at (120, 80) and the update, which
  repeats the initial position (50, 50), puts it back at (50, 50).
\<close>

theorem reconfigure_takes_geometry_from_args_counterexample:
  "reconfigure recolour
       \<lparr>canvas = Some (mkCanvas 400 300), rectRef = Some (mkRect 120 80 100 100 1 1)\<rparr>
     = Inr \<lparr>canvas = Some (requestRenderAll (mkCanvas 400 300)),
            rectRef = Some ((mkRect 50 50 100 100 1 1)\<lparr>stroke := ''red''\<rparr>)\<rparr>
   \<and> left_rect (mkRect 120 80 100 100 1 1) = Some 120
   \<and> left_rect ((mkRect 50 50 100 100 1 1)\<lparr>stroke := ''red''\<rparr>) = Some 50
   \<and> top_rect (mkRect 120 80 100 100 1 1) = Some 80
   \<and> top_rect ((mkRect 50 50 100 100 1 1)\<lparr>stroke := ''red''\<rparr>) = Some 50
   \<and> (120::real) \<noteq> 50 \<and> (80::real) \<noteq> 50"
  by (simp add: reconfigure_eq recolour_def example_defs)

subsection \<open>C4: a scale factor within bounds is kept\<close>

text \<open>
  C4, as amended. For a rectangle of positive base width and height a run of
  \<open>keepRectInsideCanvas\<close> succeeds, and, a scale factor being read as 1 when it is zero or
  unset: with the aspect-lock flag false, a scale factor that does not exceed the bound
  of its axis (\<open>canvasWidth / baseWidth\<close>, \<open>canvasHeight / baseHeight\<close>) is unchanged;
  with the flag true, both scale factors are unchanged when neither exceeds the smaller of
  the two bounds. The bound is the quotient as the doubles compute it; for a scale factor
  that is a double, it may as well be the exact quotient.
\<close>

theorem keepRectInsideCanvas_no_overcorrection:
  assumes "width r = Some w" "0 < w" "height r = Some h" "0 < h"
  shows "\<exists>r' c'. keepRectInsideCanvas r c lock = Inr (r', c')
      \<and> (\<not> lock \<and> \<not> js_gt (js_or (scaleX r) (Some 1)) (Some (fl64 (canvas_width c / w)))
           \<longrightarrow> scaleX r' = scaleX r)
      \<and> (\<not> lock \<and> \<not> js_gt (js_or (scaleY r) (Some 1)) (Some (fl64 (canvas_height c / h)))
           \<longrightarrow> scaleY r' = scaleY r)
      \<and> (lock \<and> \<not> js_gt (js_or (scaleX r) (Some 1))
                       (Some (min (fl64 (canvas_width c / w)) (fl64 (canvas_height c / h))))
               \<and> \<not> js_gt (js_or (scaleY r) (Some 1))
                       (Some (min (fl64 (canvas_width c / w)) (fl64 (canvas_height c / h))))
           \<longrightarrow> scaleX r' = scaleX r \<and> scaleY r' = scaleY r)
      \<and> (\<not> lock \<and> js_or (scaleX r) (Some 1) = Some s \<and> is_double s
               \<and> s \<le> canvas_width c / w
           \<longrightarrow> scaleX r' = scaleX r)
      \<and> (\<not> lock \<and> js_or (scaleY r) (Some 1) = Some s' \<and> is_double s'
               \<and> s' \<le> canvas_height c / h
           \<longrightarrow> scaleY r' = scaleY r)
      \<and> (lock \<and> js_or (scaleX r) (Some 1) = Some s \<and> is_double s
               \<and> js_or (scaleY r) (Some 1) = Some s' \<and> is_double s'
               \<and> s \<le> min (canvas_width c / w) (canvas_height c / h)
               \<and> s' \<le> min (canvas_width c / w) (canvas_height c / h)
           \<longrightarrow> scaleX r' = scaleX r \<and> scaleY r' = scaleY r)"
proof -
  have x: "\<not> js_gt (js_or (scaleX r) (Some 1)) (Some (fl64 q))"
    if "js_or (scaleX r) (Some 1) = Some s" "is_double s" "s \<le> q" for q
    using that is_double_le_fl64 [of s q] by (simp add: js_gt_simps)
  have y: "\<not> js_gt (js_or (scaleY r) (Some 1)) (Some (fl64 q))"
    if "js_or (scaleY r) (Some 1) = Some s'" "is_double s'" "s' \<le> q" for q
    using that is_double_le_fl64 [of s' q] by (simp add: js_gt_simps)
  have xm: "\<not> js_gt (js_or (scaleX r) (Some 1)) (Some (min (fl64 q1) (fl64 q2)))"
    if "js_or (scaleX r) (Some 1) = Some s" "is_double s" "s \<le> min q1 q2" for q1 q2
    using that is_double_le_fl64 [of s q1] is_double_le_fl64 [of s q2] by (simp add: js_gt_simps)
  have ym: "\<not> js_gt (js_or (scaleY r) (Some 1)) (Some (min (fl64 q1) (fl64 q2)))"
    if "js_or (scaleY r) (Some 1) = Some s'" "is_double s'" "s' \<le> min q1 q2" for q1 q2
    using that is_double_le_fl64 [of s' q1] is_double_le_fl64 [of s' q2] by (simp add: js_gt_simps)
  have res: "keepRectInsideCanvas r c lock = Inr (setCoords (fitted r c lock), requestRenderAll c)"
    by (rule keepRectInsideCanvas_eq)
  have kx: "scaleX (setCoords (fitted r c lock)) = scaleX r"
    if "\<not> lock" "\<not> js_gt (js_or (scaleX r) (Some 1)) (Some (fl64 (canvas_width c / w)))"
    using that assms by (simp add: setCoords_fields fitted_def fitScales_def Let_def)
  have ky: "scaleY (setCoords (fitted r c lock)) = scaleY r"
    if "\<not> lock" "\<not> js_gt (js_or (scaleY r) (Some 1)) (Some (fl64 (canvas_height c / h)))"
    using that assms by (simp add: setCoords_fields fitted_def fitScales_def Let_def)
  have kl: "scaleX (setCoords (fitted r c lock)) = scaleX r
          \<and> scaleY (setCoords (fitted r c lock)) = scaleY r"
    if "lock" "\<not> js_gt (js_or (scaleX r) (Some 1))
                       (Some (min (fl64 (canvas_width c / w)) (fl64 (canvas_height c / h))))"
       "\<not> js_gt (js_or (scaleY r) (Some 1))
                       (Some (min (fl64 (canvas_width c / w)) (fl64 (canvas_height c / h))))"
    using that assms by (simp add: setCoords_fields fitted_def fitScales_def Let_def)
  show ?thesis
    unfolding res using kx ky kl x y xm ym by blast
qed

text \<open>
  Base 100 by 100 on a canvas of 400 by 300: unlocked with scale factors (2, 5) and
  (5, 2), locked with (2, 3).
\<close>

theorem keepRectInsideCanvas_no_overcorrection_witness:
  "(\<exists>r' c'. keepRectInsideCanvas (mkRect 50 50 100 100 2 5) (mkCanvas 400 300) False = Inr (r', c')
        \<and> scaleX r' = Some 2)
   \<and> (\<exists>r' c'. keepRectInsideCanvas (mkRect 50 50 100 100 5 2) (mkCanvas 400 300) False = Inr (r', c')
        \<and> scaleY r' = Some 2)
   \<and> (\<exists>r' c'. keepRectInsideCanvas (mkRect 50 50 100 100 2 3) (mkCanvas 400 300) True = Inr (r', c')
        \<and> scaleX r' = Some 2 \<and> scaleY r' = Some 3)"
proof -
  have h: "width (mkRect l t 100 100 sx sy) = Some 100" "(0::real) < 100"
    "height (mkRect l t 100 100 sx sy) = Some 100" "(0::real) < 100" for l t sx sy
    by (simp_all add: mkRect_def setCoords_def)
  have s: "scaleX (mkRect l t w h sx sy) = Some sx" "scaleY (mkRect l t w h sx sy) = Some sy"
    for l t w h sx sy
    by (simp_all add: mkRect_def setCoords_def)
  show ?thesis
    using keepRectInsideCanvas_no_overcorrection [OF h, of 50 50 2 5 "mkCanvas 400 300" False 2 2]
      keepRectInsideCanvas_no_overcorrection [OF h, of 50 50 5 2 "mkCanvas 400 300" False 2 2]
      keepRectInsideCanvas_no_overcorrection [OF h, of 50 50 2 3 "mkCanvas 400 300" True 2 3]
    by (simp add: s mkCanvas_def js_or_simps js_gt_simps is_double_def)
qed

text \<open>
  C4 as stated fails under the aspect lock on base 100 by 100, canvas 400 by 300 and
  scale factors 1 and 5: \<open>scaleX = 1\<close> is within its bound \<open>400 / 100\<close>, but \<open>scaleY\<close>
  exceeds the uniform bound 3 and both factors are set to 3.
\<close>

theorem keepRectInsideCanvas_no_overcorrection_counterexample:
  "scaleX (mkRect 0 0 100 100 1 5) = Some 1
   \<and> width (mkRect 0 0 100 100 1 5) = Some 100
   \<and> getWidth (mkCanvas 400 300) = Some 400
   \<and> (1::real) \<le> 400 / 100
   \<and> keepRectInsideCanvas (mkRect 0 0 100 100 1 5) (mkCanvas 400 300) True
       = Inr (mkRect 0 0 100 100 3 3, requestRenderAll (mkCanvas 400 300))
   \<and> scaleX (mkRect 0 0 100 100 3 3) = Some 3
   \<and> scaleX (mkRect 0 0 100 100 3 3) \<noteq> scaleX (mkRect 0 0 100 100 1 5)"
  by (simp add: keepRectInsideCanvas_eq example_defs)

subsection \<open>C5: idempotence\<close>

text \<open>
  C5. \<open>keepRectInsideCanvas\<close> is idempotent: for every rectangle, canvas and aspect-lock
  flag, both of two runs in a row succeed and the second leaves \<open>left\<close>, \<open>top\<close>, \<open>scaleX\<close> and
  \<open>scaleY\<close>, indeed the whole rectangle, as the first left them.
\<close>

theorem keepRectInsideCanvas_idempotent:
  "\<exists>r1 c1 r2 c2. keepRectInsideCanvas r c lock = Inr (r1, c1)
      \<and> keepRectInsideCanvas r1 c1 lock = Inr (r2, c2)
      \<and> left_rect r2 = left_rect r1 \<and> top_rect r2 = top_rect r1
      \<and> scaleX r2 = scaleX r1 \<and> scaleY r2 = scaleY r1
      \<and> r2 = r1"
  by (simp add: keepRectInsideCanvas_eq fitted_idem)

subsection \<open>C6: scenarios 2 and 3\<close>

text \<open>
  C6. On a canvas of 400 by 300, a rectangle of base 100 by 100 with both scale factors 5,
  wherever it stands: without the aspect lock \<open>scaleX\<close> becomes 4 and \<open>scaleY\<close> becomes 3,
  and the rectangle, then 400 by 300, is put at (0, 0); with the aspect lock both scale
  factors become 3.
\<close>

theorem keepRectInsideCanvas_scenarios_2_3:
  assumes "width r = Some 100" "height r = Some 100" "scaleX r = Some 5" "scaleY r = Some 5"
    and "canvas_width c = 400" "canvas_height c = 300"
  shows "(\<exists>r' c'. keepRectInsideCanvas r c False = Inr (r', c')
            \<and> scaleX r' = Some 4 \<and> scaleY r' = Some 3
            \<and> getScaledWidth r' = Some 400 \<and> getScaledHeight r' = Some 300
            \<and> left_rect r' = Some 0 \<and> top_rect r' = Some 0)
       \<and> (\<exists>r' c'. keepRectInsideCanvas r c True = Inr (r', c')
            \<and> scaleX r' = Some 3 \<and> scaleY r' = Some 3)"
  using assms
  by (simp add: keepRectInsideCanvas_eq setCoords_fields fitted_def fitScales_def Let_def
      getScaledWidth_def getScaledHeight_def js_or_simps js_gt_simps js_arith_simps
      fitPosition_Some)

text \<open>
  The rectangle of the scenario, standing at (50, 50).
\<close>

theorem keepRectInsideCanvas_scenarios_2_3_witness:
  "width (mkRect 50 50 100 100 5 5) = Some 100 \<and> height (mkRect 50 50 100 100 5 5) = Some 100
   \<and> scaleX (mkRect 50 50 100 100 5 5) = Some 5 \<and> scaleY (mkRect 50 50 100 100 5 5) = Some 5
   \<and> canvas_width (mkCanvas 400 300) = 400 \<and> canvas_height (mkCanvas 400 300) = 300
   \<and> (\<exists>r' c'. keepRectInsideCanvas (mkRect 50 50 100 100 5 5) (mkCanvas 400 300) False = Inr (r', c')
            \<and> scaleX r' = Some 4 \<and> scaleY r' = Some 3
            \<and> left_rect r' = Some 0 \<and> top_rect r' = Some 0)
   \<and> (\<exists>r' c'. keepRectInsideCanvas (mkRect 50 50 100 100 5 5) (mkCanvas 400 300) True = Inr (r', c')
            \<and> scaleX r' = Some 3 \<and> scaleY r' = Some 3)"
proof -
  have h: "width (mkRect 50 50 100 100 5 5) = Some 100" "height (mkRect 50 50 100 100 5 5) = Some 100"
    "scaleX (mkRect 50 50 100 100 5 5) = Some 5" "scaleY (mkRect 50 50 100 100 5 5) = Some 5"
    "canvas_width (mkCanvas 400 300) = 400" "canvas_height (mkCanvas 400 300) = 300"
    by (simp_all add: mkRect_def mkCanvas_def setCoords_def)
  show ?thesis
    using h keepRectInsideCanvas_scenarios_2_3 [OF h] by blast
qed

subsection \<open>C7: the position clamp\<close>

text \<open>
  C7. \<open>clamp\<close> is the interval clamp on numbers; \<open>keepRectInsideCanvas\<close> commits as \<open>left\<close>
  the clamp of the old \<open>left\<close> (0 when unset) into \<open>[0, max (canvasWidth - scaledWidth) 0]\<close>
  and as \<open>top\<close> the clamp of the old \<open>top\<close> into
  \<open>[0, max (canvasHeight - scaledHeight) 0]\<close>, the scaled sizes being those of the
  result; and a rectangle of scaled size 100 by 100 at (380, 280) on a canvas of 400 by 300
  is put at (300, 200).
\<close>

theorem keepRectInsideCanvas_position_clamp:
  "clamp (Some v) (Some lo) (Some hi) = Some (if v < lo then lo else if hi < v then hi else v)
   \<and> (\<exists>r' c'. keepRectInsideCanvas r c lock = Inr (r', c')
        \<and> left_rect r' = clamp (js_nullish (left_rect r) (Some 0)) (Some 0)
                            (Math_max (js_sub (getWidth c) (getScaledWidth r')) (Some 0))
        \<and> top_rect r' = clamp (js_nullish (top_rect r) (Some 0)) (Some 0)
                            (Math_max (js_sub (getHeight c) (getScaledHeight r')) (Some 0)))
   \<and> (\<exists>r' c'. keepRectInsideCanvas (mkRect 380 280 100 100 1 1) (mkCanvas 400 300) lock = Inr (r', c')
        \<and> getScaledWidth r' = Some 100 \<and> getScaledHeight r' = Some 100
        \<and> left_rect r' = Some 300 \<and> top_rect r' = Some 200)"
proof -
  have a: "clamp (Some v) (Some lo) (Some hi) = Some (if v < lo then lo else if hi < v then hi else v)"
    by (rule clamp_Some)
  have b: "\<exists>r' c'. keepRectInsideCanvas r c lock = Inr (r', c')
        \<and> left_rect r' = clamp (js_nullish (left_rect r) (Some 0)) (Some 0)
                            (Math_max (js_sub (getWidth c) (getScaledWidth r')) (Some 0))
        \<and> top_rect r' = clamp (js_nullish (top_rect r) (Some 0)) (Some 0)
                            (Math_max (js_sub (getHeight c) (getScaledHeight r')) (Some 0))"
    by (simp add: keepRectInsideCanvas_eq setCoords_def fitted_def Let_def fitPosition_def
        getScaledWidth_def getScaledHeight_def getWidth_def getHeight_def)
  have c: "\<exists>r' c'. keepRectInsideCanvas (mkRect 380 280 100 100 1 1) (mkCanvas 400 300) lock = Inr (r', c')
        \<and> getScaledWidth r' = Some 100 \<and> getScaledHeight r' = Some 100
        \<and> left_rect r' = Some 300 \<and> top_rect r' = Some 200"
    by (cases lock) (simp_all add: keepRectInsideCanvas_eq example_defs)
  from a b c show ?thesis by blast
qed

subsection \<open>C8: degenerate rectangles\<close>

text \<open>
  C8. For a rectangle whose base width or base height is zero or unset, a run of
  \<open>keepRectInsideCanvas\<close> succeeds, leaves both scale factors as they were, and commits
  the clamped position.
\<close>

theorem keepRectInsideCanvas_degenerate:
  assumes "width r = None \<or> width r = Some 0 \<or> height r = None \<or> height r = Some 0"
  shows "\<exists>r' c'. keepRectInsideCanvas r c lock = Inr (r', c')
      \<and> scaleX r' = scaleX r \<and> scaleY r' = scaleY r
      \<and> left_rect r' = clamp (js_nullish (left_rect r) (Some 0)) (Some 0)
                          (Math_max (js_sub (getWidth c) (getScaledWidth r)) (Some 0))
      \<and> top_rect r' = clamp (js_nullish (top_rect r) (Some 0)) (Some 0)
                          (Math_max (js_sub (getHeight c) (getScaledHeight r)) (Some 0))"
proof -
  from assms have deg: "\<not> js_gt (js_or (width r) (Some 0)) (Some 0)
                      \<or> \<not> js_gt (js_or (height r) (Some 0)) (Some 0)"
    by (auto simp: js_or_simps js_gt_simps)
  show ?thesis
    by (simp add: keep_degenerate [OF deg] setCoords_def fitPosition_def
        getScaledWidth_def getScaledHeight_def getWidth_def getHeight_def)
qed

text \<open>
  A rectangle of base width 0 at (450, -20) with scale factors 7, on a canvas of 400 by
  300: the scale factors stay, the position becomes (400, 0).
\<close>

theorem keepRectInsideCanvas_degenerate_witness:
  "width (mkRect 450 (- 20) 0 80 7 7) = Some 0
   \<and> (\<exists>r' c'. keepRectInsideCanvas (mkRect 450 (- 20) 0 80 7 7) (mkCanvas 400 300) True = Inr (r', c')
        \<and> scaleX r' = Some 7 \<and> scaleY r' = Some 7
        \<and> left_rect r' = Some 400 \<and> top_rect r' = Some 0)"
proof -
  have h: "width (mkRect 450 (- 20) 0 80 7 7) = Some 0"
    by (simp add: mkRect_def setCoords_def)
  then have h': "width (mkRect 450 (- 20) 0 80 7 7) = None \<or> width (mkRect 450 (- 20) 0 80 7 7) = Some 0
      \<or> height (mkRect 450 (- 20) 0 80 7 7) = None \<or> height (mkRect 450 (- 20) 0 80 7 7) = Some 0"
    by blast
  show ?thesis
    using h keepRectInsideCanvas_degenerate [OF h', of "mkCanvas 400 300" True]
    by (simp add: example_defs js_nullish_simps clamp_Some)
qed

subsection \<open>C9: no failure\<close>

text \<open>
  C9. \<open>keepRectInsideCanvas\<close> never fails: for every rectangle, canvas and aspect-lock flag
  it returns a rectangle, so neither division meets a zero divisor. When the six geometry
  fields of the input are numbers, those of the result are numbers too.
\<close>

theorem keepRectInsideCanvas_total:
  "\<exists>r' c'. keepRectInsideCanvas r c lock = Inr (r', c')
      \<and> (left_rect r \<noteq> None \<and> top_rect r \<noteq> None \<and> width r \<noteq> None \<and> height r \<noteq> None
           \<and> scaleX r \<noteq> None \<and> scaleY r \<noteq> None
         \<longrightarrow> left_rect r' \<noteq> None \<and> top_rect r' \<noteq> None \<and> width r' \<noteq> None
           \<and> height r' \<noteq> None \<and> scaleX r' \<noteq> None \<and> scaleY r' \<noteq> None)"
proof -
  obtain x y where xy:
    "fitPosition (left_rect r) (canvas_width c) (js_mul (width r) (scaleX (fitted r c lock)))
       = Some x"
    "fitPosition (top_rect r) (canvas_height c) (js_mul (height r) (scaleY (fitted r c lock)))
       = Some y"
    using fitPosition_defined by meson
  have pos: "left_rect (fitted r c lock) = Some x" "top_rect (fitted r c lock) = Some y"
    using xy by (simp_all add: fitted_def Let_def)
  have sc: "scaleX (fitted r c lock) \<noteq> None \<and> scaleY (fitted r c lock) \<noteq> None"
    if "scaleX r \<noteq> None" "scaleY r \<noteq> None"
    using fitScales_numeric [OF that] by (simp add: fitted_def Let_def)
  show ?thesis
    using pos sc by (simp add: keepRectInsideCanvas_eq setCoords_fields fitted_frame)
qed

text \<open>
  The rectangle of scenario 2 at (380, 280).
\<close>

theorem keepRectInsideCanvas_total_witness:
  "left_rect (mkRect 380 280 100 100 5 5) \<noteq> None \<and> top_rect (mkRect 380 280 100 100 5 5) \<noteq> None
   \<and> width (mkRect 380 280 100 100 5 5) \<noteq> None \<and> height (mkRect 380 280 100 100 5 5) \<noteq> None
   \<and> scaleX (mkRect 380 280 100 100 5 5) \<noteq> None \<and> scaleY (mkRect 380 280 100 100 5 5) \<noteq> None
   \<and> (\<exists>r' c'. keepRectInsideCanvas (mkRect 380 280 100 100 5 5) (mkCanvas 400 300) False = Inr (r', c')
        \<and> left_rect r' \<noteq> None \<and> top_rect r' \<noteq> None \<and> width r' \<noteq> None
        \<and> height r' \<noteq> None \<and> scaleX r' \<noteq> None \<and> scaleY r' \<noteq> None)"
proof -
  have h: "left_rect (mkRect 380 280 100 100 5 5) \<noteq> None \<and> top_rect (mkRect 380 280 100 100 5 5) \<noteq> None
   \<and> width (mkRect 380 280 100 100 5 5) \<noteq> None \<and> height (mkRect 380 280 100 100 5 5) \<noteq> None
   \<and> scaleX (mkRect 380 280 100 100 5 5) \<noteq> None \<and> scaleY (mkRect 380 280 100 100 5 5) \<noteq> None"
    by (simp add: mkRect_def setCoords_def)
  show ?thesis
    using h keepRectInsideCanvas_total [of "mkRect 380 280 100 100 5 5" "mkCanvas 400 300" False]
    by blast
qed

subsection \<open>C10: the frame of the constraint function\<close>

text \<open>
  C10. A run of \<open>keepRectInsideCanvas\<close> changes, of the rectangle, only \<open>left\<close>, \<open>top\<close>,
  \<open>scaleX\<close>, \<open>scaleY\<close> and the cached corner coordinates, and, of the canvas, only the
  request to redraw: the base width, the base height, the stroke colour and the stroke
  width are those of the input.
\<close>

theorem keepRectInsideCanvas_frame:
  "\<exists>r' c'. keepRectInsideCanvas r c lock = Inr (r', c')
      \<and> width r' = width r \<and> height r' = height r
      \<and> stroke r' = stroke r \<and> strokeWidth r' = strokeWidth r
      \<and> r' = r\<lparr>left_rect := left_rect r', top_rect := top_rect r',
                 scaleX := scaleX r', scaleY := scaleY r', aCoords := aCoords r'\<rparr>
      \<and> c' = c\<lparr>renderRequested := True\<rparr>"
  by (simp add: keepRectInsideCanvas_eq fitted_def setCoords_def requestRenderAll_def Let_def)

end
